theory Spec2Isabelle
  imports Main "HOL-Library.AList" "HOL-Library.Word"
begin

section \<open>Package chat: data model\<close>

text \<open>
  Errors are values. \<open>Errorf\<close> is \<^verbatim>\<open>fmt.Errorf\<close> with its message; the other
  constructors are the error kinds of the collaborators whose code is not part of
  \<^verbatim>\<open>api.go\<close> (the channel registry, the store, the decoder).
\<close>

datatype error =
    Errorf string
  | NickTaken
  | ChannelNotFound
  | StoreUnavailable
  | DecodeError

text \<open>
  A Go map \<^verbatim>\<open>map[string]V\<close> is an association list with an optional wrapper:
  \<open>None\<close> is the nil map, \<open>Some al\<close> a map whose entries are \<open>al\<close>, listed in
  the order a \<^verbatim>\<open>range\<close> loop visits them. Go leaves that order unspecified; every
  statement below holds for any list, hence for any order.
\<close>

type_synonym 'v gomap = "(string \<times> 'v) list option"

definition entries :: "'v gomap \<Rightarrow> (string \<times> 'v) list" where
  "entries m = (case m of None \<Rightarrow> [] | Some al \<Rightarrow> al)"

text \<open>
  A Go slice \<^verbatim>\<open>[]V\<close>: \<open>None\<close> is the nil slice (encoded as JSON null),
  \<open>Some xs\<close> an allocated one. \<^verbatim>\<open>append\<close> allocates when given nil.
\<close>

type_synonym 'v slice = "'v list option"

definition append_slice :: "'v slice \<Rightarrow> 'v \<Rightarrow> 'v slice" where
  "append_slice s x = Some ((case s of None \<Rightarrow> [] | Some xs \<Rightarrow> xs) @ [x])"

text \<open>
  \<^verbatim>\<open>User\<close> and \<^verbatim>\<open>Chat\<close> are declared in \<^verbatim>\<open>chat.go\<close>, outside \<^verbatim>\<open>api.go\<close>. The
  fields are those the handlers read and write (\<^verbatim>\<open>Nick\<close>, \<^verbatim>\<open>FullName\<close>, \<^verbatim>\<open>Email\<close>,
  \<^verbatim>\<open>Secret\<close>; \<^verbatim>\<open>Secret\<close>, \<^verbatim>\<open>Members\<close>) and the two arguments of \<^verbatim>\<open>NewChannel\<close>.
  \<^verbatim>\<open>channelMembers\<close> appends the values of \<^verbatim>\<open>Members\<close> to a \<^verbatim>\<open>[]User\<close>, so the map
  holds users by value.
\<close>

record User =
  Nick :: string
  FullName :: string
  Email :: string
  Secret :: string

record Chat =
  Name :: string
  Secret :: string
  Private :: bool
  Members :: "User gomap"

text \<open>\<^verbatim>\<open>h.NewResponse(body, code)\<close> of the HTTP kit.\<close>

datatype 'a Response = NewResponse (body: 'a) (code: nat)

definition StatusOK :: nat where
  "StatusOK = 200"

subsection \<open>Constants of api.go\<close>

definition defMaxLen :: nat where "defMaxLen = 20"
definition minNickLen :: nat where "minNickLen = 3"
definition maxNickLen :: nat where "maxNickLen = 20"
definition minNickSecretLen :: nat where "minNickSecretLen = 5"
definition maxNickSecretLen :: nat where "maxNickSecretLen = 30"
definition minChanNameLen :: nat where "minChanNameLen = 3"
definition maxChanNameLen :: nat where "maxChanNameLen = 25"
definition maxChanSecretLen :: nat where "maxChanSecretLen = 64"

text \<open>
  \<^verbatim>\<open>regexp.Match("^[a-zA-Z0-9_]*$", s)\<close>: every byte of \<open>s\<close> is a letter, a digit
  or an underscore. The pattern is constant and compiles, so the error result is nil.
\<close>

definition word_char :: "char \<Rightarrow> bool" where
  "word_char c \<longleftrightarrow>
     c \<in> set ''abcdefghijklmnopqrstuvwxyzABCDEFGHIJKLMNOPQRSTUVWXYZ0123456789_''"

definition match_word :: "string \<Rightarrow> bool" where
  "match_word s = list_all word_char s"

subsection \<open>The channel registry (chat.go, not part of api.go)\<close>

text \<open>
  Modelled from the spec: \<^verbatim>\<open>NewChannel\<close> is called by \<^verbatim>\<open>createChannel\<close> but defined
  outside \<^verbatim>\<open>api.go\<close>. The spec: it "allocates a Channel with a freshly generated
  secret and empty membership; pure construction, no I/O". The generated secret is the
  parameter \<open>fresh\<close>: what the secret generator returns on this call.
\<close>

definition NewChannel :: "string \<Rightarrow> string \<Rightarrow> bool \<Rightarrow> Chat" where
  "NewChannel fresh name private =
     \<lparr>Chat.Name = name, Chat.Secret = fresh, Chat.Private = private, Chat.Members = Some []\<rparr>"

text \<open>
  Modelled from the spec: \<^verbatim>\<open>(*Chat).Register\<close> is called by \<^verbatim>\<open>registerNick\<close> but
  defined outside \<^verbatim>\<open>api.go\<close>. The spec: if the candidate's nick is unclaimed, generate
  a new secret (the presented one is ignored), store the user with that secret and
  return it; if it is claimed, compare the presented secret with the stored member's:
  on a match update the stored full name and email and return the existing secret, on
  a mismatch or an empty presented secret fail with \<open>NickTaken\<close>. The result pairs the
  returned value with the channel as the call leaves it. The generated secret is the
  parameter \<open>fresh\<close>; a nil membership map counts as empty and is allocated by the
  first claim.
\<close>

definition Register :: "string \<Rightarrow> Chat \<Rightarrow> User \<Rightarrow> string \<Rightarrow> (error + string) \<times> Chat" where
  "Register fresh c u secret =
     (case map_of (entries (Members c)) (User.Nick u) of
        None \<Rightarrow>
          (Inr fresh,
           c\<lparr>Members := Some (AList.update (User.Nick u)
                (u\<lparr>User.Secret := fresh\<rparr>) (entries (Members c)))\<rparr>)
      | Some m \<Rightarrow>
          if secret = [] \<or> secret \<noteq> User.Secret m then (Inl NickTaken, c)
          else
            (Inr (User.Secret m),
             c\<lparr>Members := Some (AList.update (User.Nick u)
                  (m\<lparr>User.FullName := User.FullName u, User.Email := User.Email u\<rparr>)
                  (entries (Members c)))\<rparr>))"

subsection \<open>The store behind the API\<close>

text \<open>
  Modelled from the spec: \<^verbatim>\<open>Store\<close> is an interface in \<^verbatim>\<open>api.go\<close>; its
  implementation is elsewhere. The spec: \<^verbatim>\<open>get\<close> "fails with NotFound when absent",
  \<^verbatim>\<open>save\<close> is an "upsert of channel + membership snapshot" that may fail. Channels are
  kept by name and handed out by value (a snapshot). Whether the persistence engine
  accepts a write is the parameter \<open>ok\<close> of \<open>store_Save\<close>.
\<close>

type_synonym Store = "string \<rightharpoonup> Chat"

definition store_Get :: "Store \<Rightarrow> string \<Rightarrow> error + Chat" where
  "store_Get store name =
     (case store name of None \<Rightarrow> Inl ChannelNotFound | Some ch \<Rightarrow> Inr ch)"

definition store_Save :: "bool \<Rightarrow> Store \<Rightarrow> Chat \<Rightarrow> error option \<times> Store" where
  "store_Save ok store ch =
     (if ok then (None, store(Chat.Name ch \<mapsto> ch)) else (Some StoreUnavailable, store))"

section \<open>Package chat: the API handlers of api.go\<close>

record createChanReq =
  Name :: string
  Private :: bool

record createChanResp =
  Secret :: string

definition createChanReq_Validate :: "createChanReq \<Rightarrow> error option" where
  "createChanReq_Validate cr =
     (if createChanReq.Name cr = [] then Some (Errorf ''name must not be empty'')
      else if length (createChanReq.Name cr) < minChanNameLen
              \<or> length (createChanReq.Name cr) > maxChanNameLen
        then Some (Errorf ''name must be between 3 and 25 characters long'')
      else if \<not> match_word (createChanReq.Name cr)
        then Some (Errorf ''name must contain only alphanumeric and underscores'')
      else None)"

definition createChannel ::
  "string \<Rightarrow> bool \<Rightarrow> Store \<Rightarrow> createChanReq \<Rightarrow> (error + createChanResp Response) \<times> Store" where
  "createChannel fresh save_ok store req =
     (let ch = NewChannel fresh (createChanReq.Name req) (createChanReq.Private req) in
      case store_Save save_ok store ch of
        (Some err, store') \<Rightarrow> (Inl (Errorf ''could not create channel at this moment''), store')
      | (None, store') \<Rightarrow>
          (Inr (NewResponse \<lparr>createChanResp.Secret = Chat.Secret ch\<rparr> StatusOK), store'))"

record registerNickReq =
  Nick :: string
  FullName :: string
  Email :: string
  Secret :: string
  Channel :: string
  ChannelSecret :: string

record registerNickResp =
  Secret :: string

definition registerNickReq_Validate :: "registerNickReq \<Rightarrow> error option" where
  "registerNickReq_Validate r =
     (if registerNickReq.Nick r = [] then Some (Errorf ''nick is required'')
      else if registerNickReq.Channel r = [] then Some (Errorf ''channel is required'')
      else if length (registerNickReq.Nick r) < minNickLen
              \<or> length (registerNickReq.Nick r) > maxNickLen
        then Some (Errorf ''nick must be between 3 and 20 characters long'')
      else if \<not> match_word (registerNickReq.Nick r)
        then Some (Errorf ''nick must contain only alphanumeric and underscores'')
      else if length (registerNickReq.FullName r) > defMaxLen
              \<or> length (registerNickReq.Email r) > defMaxLen
        then Some (Errorf ''exceeded max field length of 20'')
      else if length (registerNickReq.ChannelSecret r) > maxChanSecretLen
        then Some (Errorf ''exceeded max channel secret length of 64'')
      else if registerNickReq.Secret r \<noteq> []
              \<and> (length (registerNickReq.Secret r) < minNickSecretLen
                   \<or> length (registerNickReq.Secret r) > maxNickSecretLen)
        then Some (Errorf ''secret should be between 5 and 30 characters long'')
      else if registerNickReq.Secret r \<noteq> [] \<and> \<not> match_word (registerNickReq.Secret r)
        then Some (Errorf ''secret must contain only alphanumeric and underscores'')
      else None)"

text \<open>
  \<^verbatim>\<open>registerNick\<close> talks to the store twice. Lines 142 to 159 fetch the channel,
  check the channel secret and run \<^verbatim>\<open>Register\<close> on the fetched value
  (\<open>registerNick_claim\<close>); lines 162 to 167 save the changed channel and answer
  (\<open>registerNick_persist\<close>). Nothing in the handler holds the store between the two
  (\<^verbatim>\<open>// TODO - Need transaction\<close>, line 161); the handler run on its own is the
  first phase followed at once by the second.
\<close>

definition registerNick_claim ::
  "string \<Rightarrow> Store \<Rightarrow> registerNickReq \<Rightarrow> error + (Chat \<times> string)" where
  "registerNick_claim fresh store req =
     (case store_Get store (registerNickReq.Channel req) of
        Inl err \<Rightarrow> Inl (Errorf ''could not fetch channel'')
      | Inr ch \<Rightarrow>
          if Chat.Secret ch \<noteq> registerNickReq.ChannelSecret req
          then Inl (Errorf ''invalid secret'')
          else
            (case Register fresh ch
                    \<lparr>User.Nick = registerNickReq.Nick req,
                     User.FullName = registerNickReq.FullName req,
                     User.Email = registerNickReq.Email req,
                     User.Secret = []\<rparr>
                    (registerNickReq.Secret req) of
               (Inl err, ch') \<Rightarrow> Inl err
             | (Inr secret, ch') \<Rightarrow> Inr (ch', secret)))"

definition registerNick_persist ::
  "bool \<Rightarrow> Store \<Rightarrow> Chat \<times> string \<Rightarrow> (error + registerNickResp Response) \<times> Store" where
  "registerNick_persist save_ok store claimed =
     (case store_Save save_ok store (fst claimed) of
        (Some err, store') \<Rightarrow> (Inl (Errorf ''could not update channel membership''), store')
      | (None, store') \<Rightarrow>
          (Inr (NewResponse \<lparr>registerNickResp.Secret = snd claimed\<rparr> StatusOK), store'))"

definition registerNick ::
  "string \<Rightarrow> bool \<Rightarrow> Store \<Rightarrow> registerNickReq \<Rightarrow> (error + registerNickResp Response) \<times> Store" where
  "registerNick fresh save_ok store req =
     (case registerNick_claim fresh store req of
        Inl err \<Rightarrow> (Inl err, store)
      | Inr claimed \<Rightarrow> registerNick_persist save_ok store claimed)"

record channelMembersReq =
  Channel :: string
  ChannelSecret :: string

definition channelMembersReq_Validate :: "channelMembersReq \<Rightarrow> error option" where
  "channelMembersReq_Validate r =
     (if channelMembersReq.Channel r = [] then Some (Errorf ''channel is required'')
      else if length (channelMembersReq.Channel r) > maxChanNameLen
        then Some (Errorf ''channel name must not exceed 25 characters'')
      else if length (channelMembersReq.ChannelSecret r) > maxChanSecretLen
        then Some (Errorf ''channel_secret must not exceed 64 characters'')
      else None)"

text \<open>
  The loop body of \<^verbatim>\<open>channelMembers\<close>: \<^verbatim>\<open>u\<close> is a copy of the map entry, its
  secret is blanked and the copy is appended.
\<close>

definition redact_append :: "User slice \<Rightarrow> string \<times> User \<Rightarrow> User slice" where
  "redact_append members kv = append_slice members ((snd kv)\<lparr>User.Secret := []\<rparr>)"

definition channelMembers :: "Store \<Rightarrow> channelMembersReq \<Rightarrow> error + (User slice) Response" where
  "channelMembers store req =
     (case store_Get store (channelMembersReq.Channel req) of
        Inl err \<Rightarrow> Inl (Errorf ''could not fetch channel'')
      | Inr ch \<Rightarrow>
          (let members = Some [];
               members =
                 (if Members ch \<noteq> None \<and> length (entries (Members ch)) > 0
                  then foldl redact_append members (entries (Members ch))
                  else members)
           in Inr (NewResponse members StatusOK)))"

subsection \<open>Sequences of API calls\<close>

text \<open>
  One call of the API with what its environment supplies: the secret the generator
  returns during the call and whether the store accepts the write.
\<close>

datatype call =
    CreateChannel string bool createChanReq
  | RegisterNick string bool registerNickReq
  | ChannelMembers channelMembersReq

fun serve :: "Store \<Rightarrow> call \<Rightarrow> Store" where
  "serve store (CreateChannel fresh save_ok req) = snd (createChannel fresh save_ok store req)"
| "serve store (RegisterNick fresh save_ok req) = snd (registerNick fresh save_ok store req)"
| "serve store (ChannelMembers req) = store"

definition serve_all :: "Store \<Rightarrow> call list \<Rightarrow> Store" where
  "serve_all store calls = foldl serve store calls"

text \<open>
  The membership of a channel is keyed by nick: no key occurs twice (it is a map) and
  every member sits under its own nick.
\<close>

definition nick_keyed :: "Chat \<Rightarrow> bool" where
  "nick_keyed c \<longleftrightarrow>
     distinct (map fst (entries (Members c)))
     \<and> list_all (\<lambda>kv. User.Nick (snd kv) = fst kv) (entries (Members c))"

definition member_nicks :: "Chat \<Rightarrow> string list" where
  "member_nicks c = map (\<lambda>kv. User.Nick (snd kv)) (entries (Members c))"

definition keyed_store :: "Store \<Rightarrow> bool" where
  "keyed_store store \<longleftrightarrow> (\<forall>c \<in> ran store. nick_keyed c)"

text \<open>Every stored member secret is a generated one: not empty.\<close>

definition secrets_set :: "Chat \<Rightarrow> bool" where
  "secrets_set c \<longleftrightarrow> list_all (\<lambda>kv. User.Secret (snd kv) \<noteq> []) (entries (Members c))"

text \<open>Every channel of the store is kept under its own name, as \<open>store_Save\<close> files it.\<close>

definition named_store :: "Store \<Rightarrow> bool" where
  "named_store store \<longleftrightarrow> (\<forall>n c. store n = Some c \<longrightarrow> Chat.Name c = n)"

text \<open>A call that creates a channel under the given name and whose write is accepted.\<close>

fun recreates :: "string \<Rightarrow> call \<Rightarrow> bool" where
  "recreates name (CreateChannel fresh save_ok req) = (save_ok \<and> createChanReq.Name req = name)"
| "recreates name (RegisterNick fresh save_ok req) = False"
| "recreates name (ChannelMembers req) = False"

text \<open>
  The same channel with other member secrets: \<open>f\<close> chooses the secret of each entry.
  Used to say that an answer does not depend on the stored secrets.
\<close>

definition reset_secrets :: "(string \<Rightarrow> User \<Rightarrow> string) \<Rightarrow> Chat \<Rightarrow> Chat" where
  "reset_secrets f c =
     c\<lparr>Members := map_option (map (\<lambda>kv. (fst kv, (snd kv)\<lparr>User.Secret := f (fst kv) (snd kv)\<rparr>)))
                     (Members c)\<rparr>"

subsection \<open>Concurrent registrations\<close>

text \<open>
  Requests are served concurrently, one handler run per request. A run of
  \<^verbatim>\<open>registerNick\<close> is at one of three points: not started (with the secret its
  \<^verbatim>\<open>Register\<close> call will generate), between its two store calls (holding the
  channel value it changed and the secret to answer with), or answered. A schedule
  names, step by step, which run performs its next store call.
\<close>

datatype run =
    Waiting string registerNickReq
  | Claimed "Chat \<times> string"
  | Answered "error + registerNickResp Response"

fun advance :: "Store \<Rightarrow> run \<Rightarrow> run \<times> Store" where
  "advance store (Waiting fresh req) =
     (case registerNick_claim fresh store req of
        Inl err \<Rightarrow> (Answered (Inl err), store)
      | Inr claimed \<Rightarrow> (Claimed claimed, store))"
| "advance store (Claimed claimed) =
     (case registerNick_persist True store claimed of (r, store') \<Rightarrow> (Answered r, store'))"
| "advance store (Answered r) = (Answered r, store)"

fun interleave :: "nat list \<Rightarrow> run list \<times> Store \<Rightarrow> run list \<times> Store" where
  "interleave [] cfg = cfg"
| "interleave (i # sched) (runs, store) =
     (if i < length runs
      then (case advance store (runs ! i) of
              (r, store') \<Rightarrow> interleave sched (runs[i := r], store'))
      else interleave sched (runs, store))"

section \<open>Package ingest\<close>

type_synonym bytes = "8 word list"

text \<open>
  \<^verbatim>\<open>broker.Msg\<close> is declared in package \<^verbatim>\<open>broker\<close>; these are the fields the
  handler sets. \<^verbatim>\<open>Time\<close> is a \<^verbatim>\<open>time.Time\<close>, here an instant counted as an
  integer; \<^verbatim>\<open>Seq\<close> is a \<^verbatim>\<open>uint64\<close>.
\<close>

record Msg =
  From :: string
  Text :: string
  Time :: int
  Seq :: "64 word"

text \<open>
  Modelled from the spec: \<^verbatim>\<open>ChatStore\<close> is an interface; its implementation is
  elsewhere. The spec: \<^verbatim>\<open>appendMessage(channelID, Msg) -> error\<close> appends to the log of
  the channel and "MUST be idempotent for repeated (channelID, seq) pairs"; a
  persistence failure is \<open>StoreUnavailable\<close>. The store keeps one log per channel
  and a fault schedule: the outcome of each of its next calls (\<open>True\<close>: that call
  fails), success once the schedule is used up. Every call uses up one entry.
\<close>

record ChatStore =
  history :: "string \<Rightarrow> Msg list"
  faults :: "bool list"

definition AppendMessage :: "string \<Rightarrow> Msg \<Rightarrow> ChatStore \<Rightarrow> error option \<times> ChatStore" where
  "AppendMessage cid msg s =
     (let s' = s\<lparr>faults := tl (faults s)\<rparr> in
      if faults s \<noteq> [] \<and> hd (faults s) then (Some StoreUnavailable, s')
      else if list_ex (\<lambda>m. Seq m = Seq msg) (history s cid) then (None, s')
      else (None, s'\<lparr>history := (history s)(cid := history s cid @ [msg])\<rparr>))"

text \<open>
  The handler that \<^verbatim>\<open>Run\<close> subscribes (lines 285 to 300). The decoder
  \<^verbatim>\<open>broker.DecodeMsg\<close> and the store's \<^verbatim>\<open>AppendMessage\<close> are the collaborators it
  calls; \<open>now\<close> is what \<^verbatim>\<open>time.Now()\<close> returns. The struct literal of the
  placeholder leaves \<^verbatim>\<open>Seq\<close> at its zero value before line 295 sets it. The handler
  has no result: what \<^verbatim>\<open>AppendMessage\<close> returns is dropped and only the store it
  leaves behind remains.
\<close>

definition Run_handler ::
  "(bytes \<Rightarrow> error + Msg) \<Rightarrow> (string \<Rightarrow> Msg \<Rightarrow> 's \<Rightarrow> error option \<times> 's)
     \<Rightarrow> int \<Rightarrow> string \<Rightarrow> 64 word \<Rightarrow> bytes \<Rightarrow> 's \<Rightarrow> 's" where
  "Run_handler DecodeMsg appendMessage now cid seq data store =
     (let msg = (case DecodeMsg data of
                   Inl err \<Rightarrow>
                     \<lparr>From = ''ingest'',
                      Text = ''ingest: message unavailable: decoding error'',
                      Time = now,
                      Seq = 0\<rparr>
                 | Inr msg \<Rightarrow> msg);
          msg = msg\<lparr>Seq := seq\<rparr>
      in snd (appendMessage cid msg store))"

text \<open>
  Modelled from the spec: the broker subscription "delivers each message" to the
  handler; its code is elsewhere. A delivery is the time at which the handler runs, the
  sequence number and the payload; deliveries are handled one after the other.
\<close>

fun deliver ::
  "(bytes \<Rightarrow> error + Msg) \<Rightarrow> string \<Rightarrow> (int \<times> 64 word \<times> bytes) list \<Rightarrow> ChatStore \<Rightarrow> ChatStore" where
  "deliver DecodeMsg cid [] store = store"
| "deliver DecodeMsg cid ((now, seq, data) # ds) store =
     deliver DecodeMsg cid ds (Run_handler DecodeMsg AppendMessage now cid seq data store)"

section \<open>Properties of the channel registry and the API\<close>

subsection \<open>Association lists\<close>

lemma entries_simps [simp]: "entries None = []" "entries (Some al) = al"
  by (simp_all add: entries_def)

lemma list_all_update:
  "list_all P al \<Longrightarrow> P (k, v) \<Longrightarrow> list_all P (AList.update k v al)"
  by (induction al) auto

lemma length_update_present:
  "map_of al k = Some v \<Longrightarrow> length (AList.update k v' al) = length al"
  by (induction al) (auto split: if_splits)

lemma keys_update_present:
  "map_of al k = Some v \<Longrightarrow> map fst (AList.update k v' al) = map fst al"
  by (induction al) (auto split: if_splits)

lemma map_of_keyed_nick:
  "list_all (\<lambda>kv. User.Nick (snd kv) = fst kv) al \<Longrightarrow> map_of al k = Some m \<Longrightarrow> User.Nick m = k"
  by (induction al) (auto split: if_splits)

subsection \<open>Membership stays keyed by nick\<close>

lemma nick_keyed_NewChannel: "nick_keyed (NewChannel fresh name private)"
  by (simp add: NewChannel_def nick_keyed_def)

lemma Register_nick_keyed:
  assumes "nick_keyed c"
  shows "nick_keyed (snd (Register fresh c u secret))"
proof (cases "map_of (entries (Members c)) (User.Nick u)")
  case None
  with assms show ?thesis
    by (simp add: Register_def nick_keyed_def distinct_update list_all_update)
next
  case (Some m)
  with assms have "User.Nick m = User.Nick u"
    by (auto simp: nick_keyed_def dest: map_of_keyed_nick)
  with Some assms show ?thesis
    by (simp add: Register_def nick_keyed_def distinct_update list_all_update)
qed

lemma map_of_list_all:
  "list_all P al \<Longrightarrow> map_of al k = Some v \<Longrightarrow> P (k, v)"
  by (induction al) (auto split: if_splits)

lemma secrets_set_NewChannel: "secrets_set (NewChannel fresh name private)"
  by (simp add: NewChannel_def secrets_set_def)

lemma Register_secrets_set:
  assumes "secrets_set c" and "fresh \<noteq> []"
  shows "secrets_set (snd (Register fresh c u secret))"
proof (cases "map_of (entries (Members c)) (User.Nick u)")
  case None
  with assms show ?thesis
    by (simp add: Register_def secrets_set_def list_all_update)
next
  case (Some m)
  with assms(1) have "User.Secret m \<noteq> []"
    by (auto simp: secrets_set_def dest: map_of_list_all)
  with Some assms show ?thesis
    by (simp add: Register_def secrets_set_def list_all_update)
qed

lemma nick_keyed_distinct: "nick_keyed c \<Longrightarrow> distinct (member_nicks c)"
proof -
  assume a: "nick_keyed c"
  then have "map (\<lambda>kv. User.Nick (snd kv)) (entries (Members c)) = map fst (entries (Members c))"
    by (simp add: nick_keyed_def list_all_iff)
  moreover from a have "distinct (map fst (entries (Members c)))"
    by (simp add: nick_keyed_def)
  ultimately show ?thesis by (simp only: member_nicks_def)
qed

lemma keyed_store_upd:
  "keyed_store store \<Longrightarrow> nick_keyed c \<Longrightarrow> keyed_store (store(k \<mapsto> c))"
  unfolding keyed_store_def ran_def by auto

lemma createChannel_keyed:
  "keyed_store store \<Longrightarrow> keyed_store (snd (createChannel fresh ok store req))"
  by (simp add: createChannel_def store_Save_def Let_def keyed_store_upd nick_keyed_NewChannel)

lemma registerNick_claim_Inr:
  assumes "registerNick_claim fresh store req = Inr claimed"
  obtains ch where "store (registerNickReq.Channel req) = Some ch"
    and "Chat.Secret ch = registerNickReq.ChannelSecret req"
    and "Register fresh ch
           \<lparr>User.Nick = registerNickReq.Nick req,
            User.FullName = registerNickReq.FullName req,
            User.Email = registerNickReq.Email req,
            User.Secret = []\<rparr>
           (registerNickReq.Secret req) = (Inr (snd claimed), fst claimed)"
  using assms
  by (auto simp: registerNick_claim_def store_Get_def
           split: option.splits if_splits sum.splits prod.splits)

lemma registerNick_keyed:
  assumes "keyed_store store"
  shows "keyed_store (snd (registerNick fresh ok store req))"
proof (cases "registerNick_claim fresh store req")
  case (Inl e)
  with assms show ?thesis by (simp add: registerNick_def)
next
  case (Inr claimed)
  then obtain ch where ch: "store (registerNickReq.Channel req) = Some ch"
    and cl: "Register fresh ch
           \<lparr>User.Nick = registerNickReq.Nick req,
            User.FullName = registerNickReq.FullName req,
            User.Email = registerNickReq.Email req,
            User.Secret = []\<rparr>
           (registerNickReq.Secret req) = (Inr (snd claimed), fst claimed)"
    by (rule registerNick_claim_Inr)
  from ch assms have "nick_keyed ch" by (auto simp: keyed_store_def ran_def)
  then have "nick_keyed (snd (Register fresh ch
           \<lparr>User.Nick = registerNickReq.Nick req,
            User.FullName = registerNickReq.FullName req,
            User.Email = registerNickReq.Email req,
            User.Secret = []\<rparr>
           (registerNickReq.Secret req)))"
    by (rule Register_nick_keyed)
  then have "nick_keyed (fst claimed)" by (simp add: cl)
  with assms Inr show ?thesis
    by (simp add: registerNick_def registerNick_persist_def store_Save_def keyed_store_upd)
qed

lemma serve_keyed: "keyed_store store \<Longrightarrow> keyed_store (serve store call)"
  by (cases call) (simp_all add: createChannel_keyed registerNick_keyed)

lemma serve_all_keyed: "keyed_store store \<Longrightarrow> keyed_store (serve_all store calls)"
  unfolding serve_all_def
  by (induction calls arbitrary: store) (simp_all add: serve_keyed)

text \<open>
  C1. Take a store in which every channel's membership is keyed by nick
  (\<open>keyed_store\<close>: the empty store, or any store built from it by the API). After any sequence of API calls,
  registrations through \<^verbatim>\<open>registerNick\<close> among them, the members of every stored
  channel have pairwise distinct nicks.
\<close>

theorem registerNick_distinct_nicks:
  assumes "keyed_store store"
    and "serve_all store calls name = Some ch"
  shows "distinct (member_nicks ch)"
proof -
  from assms(1) have "keyed_store (serve_all store calls)" by (rule serve_all_keyed)
  with assms(2) have "nick_keyed ch" by (auto simp: keyed_store_def ran_def)
  then show ?thesis by (rule nick_keyed_distinct)
qed

lemmas api_defs =
  serve_all_def createChannel_def registerNick_def registerNick_claim_def
  registerNick_persist_def Register_def NewChannel_def store_Get_def store_Save_def
  StatusOK_def

theorem registerNick_distinct_nicks_witness:
  "keyed_store [''general'' \<mapsto>
        \<lparr>Chat.Name = ''general'', Chat.Secret = ''S1'', Chat.Private = False,
         Chat.Members = Some
           [(''alice'', \<lparr>User.Nick = ''alice'', User.FullName = ''Alice'',
                         User.Email = ''a@x.io'', User.Secret = ''S2''\<rparr>)]\<rparr>]
   \<and> serve_all [''general'' \<mapsto>
        \<lparr>Chat.Name = ''general'', Chat.Secret = ''S1'', Chat.Private = False,
         Chat.Members = Some
           [(''alice'', \<lparr>User.Nick = ''alice'', User.FullName = ''Alice'',
                         User.Email = ''a@x.io'', User.Secret = ''S2''\<rparr>)]\<rparr>]
        [RegisterNick ''S3'' True
           \<lparr>registerNickReq.Nick = ''bob'', registerNickReq.FullName = ''Bob'',
            registerNickReq.Email = ''b@x.io'', registerNickReq.Secret = [],
            registerNickReq.Channel = ''general'', registerNickReq.ChannelSecret = ''S1''\<rparr>,
         RegisterNick ''S4'' True
           \<lparr>registerNickReq.Nick = ''alice'', registerNickReq.FullName = ''Mallory'',
            registerNickReq.Email = ''m@x.io'', registerNickReq.Secret = ''guess'',
            registerNickReq.Channel = ''general'', registerNickReq.ChannelSecret = ''S1''\<rparr>]
        ''general''
      = Some \<lparr>Chat.Name = ''general'', Chat.Secret = ''S1'', Chat.Private = False,
              Chat.Members = Some
                [(''alice'', \<lparr>User.Nick = ''alice'', User.FullName = ''Alice'',
                              User.Email = ''a@x.io'', User.Secret = ''S2''\<rparr>),
                 (''bob'', \<lparr>User.Nick = ''bob'', User.FullName = ''Bob'',
                            User.Email = ''b@x.io'', User.Secret = ''S3''\<rparr>)]\<rparr>
   \<and> distinct (member_nicks
        \<lparr>Chat.Name = ''general'', Chat.Secret = ''S1'', Chat.Private = False,
         Chat.Members = Some
           [(''alice'', \<lparr>User.Nick = ''alice'', User.FullName = ''Alice'',
                         User.Email = ''a@x.io'', User.Secret = ''S2''\<rparr>),
            (''bob'', \<lparr>User.Nick = ''bob'', User.FullName = ''Bob'',
                       User.Email = ''b@x.io'', User.Secret = ''S3''\<rparr>)]\<rparr>)"
  (is "?H1 \<and> ?H2 \<and> ?C")
proof -
  have h1: ?H1 by (simp add: keyed_store_def nick_keyed_def)
  have h2: ?H2 by (simp add: api_defs)
  from h1 h2 registerNick_distinct_nicks [OF h1 h2] show ?thesis by (intro conjI)
qed

subsection \<open>Re-claiming and rejected claims\<close>

text \<open>
  C3. The nick of \<open>u\<close> is claimed in channel \<open>c\<close> by the stored member \<open>m\<close>, and
  the presented secret is \<open>m\<close>'s secret (a generated one, hence not empty). Then
  \<^verbatim>\<open>Register\<close> returns that same stored secret; the membership keeps its size and its
  keys; the entry under the nick is \<open>m\<close> with only full name and email replaced (nick
  and secret as stored); every other entry and the channel's own fields are unchanged.
  Through \<^verbatim>\<open>registerNick\<close>, with the write accepted, the answer carries the stored
  secret and the store holds the updated channel.
\<close>

theorem Register_reclaim_idempotent:
  assumes "map_of (entries (Members c)) (User.Nick u) = Some m"
    and "secret = User.Secret m"
    and "secret \<noteq> []"
  shows "fst (Register fresh c u secret) = Inr (User.Secret m)
    \<and> length (entries (Members (snd (Register fresh c u secret)))) = length (entries (Members c))
    \<and> map fst (entries (Members (snd (Register fresh c u secret)))) = map fst (entries (Members c))
    \<and> map_of (entries (Members (snd (Register fresh c u secret)))) (User.Nick u)
        = Some (m\<lparr>User.FullName := User.FullName u, User.Email := User.Email u\<rparr>)
    \<and> (\<forall>k. k \<noteq> User.Nick u \<longrightarrow>
          map_of (entries (Members (snd (Register fresh c u secret)))) k
            = map_of (entries (Members c)) k)
    \<and> Chat.Name (snd (Register fresh c u secret)) = Chat.Name c
    \<and> Chat.Secret (snd (Register fresh c u secret)) = Chat.Secret c
    \<and> Chat.Private (snd (Register fresh c u secret)) = Chat.Private c
    \<and> (store (registerNickReq.Channel req) = Some c
         \<and> Chat.Secret c = registerNickReq.ChannelSecret req
         \<and> registerNickReq.Nick req = User.Nick u
         \<and> registerNickReq.FullName req = User.FullName u
         \<and> registerNickReq.Email req = User.Email u
         \<and> registerNickReq.Secret req = secret
        \<longrightarrow> registerNick fresh True store req
              = (Inr (NewResponse \<lparr>registerNickResp.Secret = User.Secret m\<rparr> StatusOK),
                 store(Chat.Name c \<mapsto> snd (Register fresh c u secret))))"
proof -
  let ?m' = "m\<lparr>User.FullName := User.FullName u, User.Email := User.Email u\<rparr>"
  let ?al = "entries (Members c)"
  from assms have R: "Register fresh c u secret
      = (Inr (User.Secret m), c\<lparr>Members := Some (AList.update (User.Nick u) ?m' ?al)\<rparr>)"
    by (simp add: Register_def)
  have registry: "fst (Register fresh c u secret) = Inr (User.Secret m)
    \<and> length (entries (Members (snd (Register fresh c u secret)))) = length ?al
    \<and> map fst (entries (Members (snd (Register fresh c u secret)))) = map fst ?al
    \<and> map_of (entries (Members (snd (Register fresh c u secret)))) (User.Nick u) = Some ?m'
    \<and> (\<forall>k. k \<noteq> User.Nick u \<longrightarrow>
          map_of (entries (Members (snd (Register fresh c u secret)))) k = map_of ?al k)
    \<and> Chat.Name (snd (Register fresh c u secret)) = Chat.Name c
    \<and> Chat.Secret (snd (Register fresh c u secret)) = Chat.Secret c
    \<and> Chat.Private (snd (Register fresh c u secret)) = Chat.Private c"
    unfolding R using assms(1)
    by (simp add: length_update_present keys_update_present update_conv')
  have handler: "registerNick fresh True store req
              = (Inr (NewResponse \<lparr>registerNickResp.Secret = User.Secret m\<rparr> StatusOK),
                 store(Chat.Name c \<mapsto> snd (Register fresh c u secret)))"
    if "store (registerNickReq.Channel req) = Some c"
      and "Chat.Secret c = registerNickReq.ChannelSecret req"
      and "registerNickReq.Nick req = User.Nick u"
      and "registerNickReq.FullName req = User.FullName u"
      and "registerNickReq.Email req = User.Email u"
      and "registerNickReq.Secret req = secret"
    using that assms
    by (simp add: registerNick_def registerNick_claim_def registerNick_persist_def
          store_Get_def store_Save_def Register_def)
  from registry handler show ?thesis by blast
qed

theorem Register_reclaim_idempotent_witness:
  "map_of (entries (Members
       \<lparr>Chat.Name = ''general'', Chat.Secret = ''S1'', Chat.Private = False,
        Chat.Members = Some
          [(''alice'', \<lparr>User.Nick = ''alice'', User.FullName = ''Alice'',
                        User.Email = ''a@x.io'', User.Secret = ''S2''\<rparr>),
           (''bob'', \<lparr>User.Nick = ''bob'', User.FullName = ''Bob'',
                      User.Email = ''b@x.io'', User.Secret = ''S3''\<rparr>)]\<rparr>))
     (User.Nick \<lparr>User.Nick = ''alice'', User.FullName = ''Alice L'',
                 User.Email = ''al@x.io'', User.Secret = []\<rparr>)
     = Some \<lparr>User.Nick = ''alice'', User.FullName = ''Alice'',
             User.Email = ''a@x.io'', User.Secret = ''S2''\<rparr>
   \<and> ''S2'' = User.Secret \<lparr>User.Nick = ''alice'', User.FullName = ''Alice'',
                             User.Email = ''a@x.io'', User.Secret = ''S2''\<rparr>
   \<and> ''S2'' \<noteq> []
   \<and> fst (Register ''S9''
       \<lparr>Chat.Name = ''general'', Chat.Secret = ''S1'', Chat.Private = False,
        Chat.Members = Some
          [(''alice'', \<lparr>User.Nick = ''alice'', User.FullName = ''Alice'',
                        User.Email = ''a@x.io'', User.Secret = ''S2''\<rparr>),
           (''bob'', \<lparr>User.Nick = ''bob'', User.FullName = ''Bob'',
                      User.Email = ''b@x.io'', User.Secret = ''S3''\<rparr>)]\<rparr>
       \<lparr>User.Nick = ''alice'', User.FullName = ''Alice L'',
        User.Email = ''al@x.io'', User.Secret = []\<rparr> ''S2'') = Inr ''S2''
   \<and> length (entries (Members (snd (Register ''S9''
       \<lparr>Chat.Name = ''general'', Chat.Secret = ''S1'', Chat.Private = False,
        Chat.Members = Some
          [(''alice'', \<lparr>User.Nick = ''alice'', User.FullName = ''Alice'',
                        User.Email = ''a@x.io'', User.Secret = ''S2''\<rparr>),
           (''bob'', \<lparr>User.Nick = ''bob'', User.FullName = ''Bob'',
                      User.Email = ''b@x.io'', User.Secret = ''S3''\<rparr>)]\<rparr>
       \<lparr>User.Nick = ''alice'', User.FullName = ''Alice L'',
        User.Email = ''al@x.io'', User.Secret = []\<rparr> ''S2'')))) = 2"
  (is "?H1 \<and> ?H2 \<and> ?H3 \<and> ?C1 \<and> ?C2")
proof -
  have h1: ?H1 by simp
  have h2: ?H2 by simp
  have h3: ?H3 by simp
  from Register_reclaim_idempotent [OF h1 h2 h3, of "''S9''"]
  have "?C1" and "?C2" by simp_all
  with h1 h2 h3 show ?thesis by (intro conjI)
qed

text \<open>
  C4. The nick of \<open>u\<close> is claimed in channel \<open>c\<close> by the stored member \<open>m\<close>, and
  the presented secret is empty or differs from \<open>m\<close>'s secret. Then \<^verbatim>\<open>Register\<close>
  fails with \<open>NickTaken\<close>, returns no secret and leaves the channel exactly as it was;
  \<^verbatim>\<open>registerNick\<close> answers with that error and leaves the store exactly as it was.
\<close>

theorem Register_wrong_secret_NickTaken:
  assumes "map_of (entries (Members c)) (User.Nick u) = Some m"
    and "secret = [] \<or> secret \<noteq> User.Secret m"
  shows "Register fresh c u secret = (Inl NickTaken, c)
    \<and> (store (registerNickReq.Channel req) = Some c
         \<and> Chat.Secret c = registerNickReq.ChannelSecret req
         \<and> registerNickReq.Nick req = User.Nick u
         \<and> registerNickReq.Secret req = secret
        \<longrightarrow> registerNick fresh save_ok store req = (Inl NickTaken, store))"
  using assms
  by (auto simp: registerNick_def registerNick_claim_def store_Get_def Register_def)

theorem Register_wrong_secret_NickTaken_witness:
  "map_of (entries (Members
       \<lparr>Chat.Name = ''general'', Chat.Secret = ''S1'', Chat.Private = False,
        Chat.Members = Some
          [(''alice'', \<lparr>User.Nick = ''alice'', User.FullName = ''Alice'',
                        User.Email = ''a@x.io'', User.Secret = ''S2''\<rparr>)]\<rparr>))
     (User.Nick \<lparr>User.Nick = ''alice'', User.FullName = ''Mallory'',
                 User.Email = ''m@x.io'', User.Secret = []\<rparr>)
     = Some \<lparr>User.Nick = ''alice'', User.FullName = ''Alice'',
             User.Email = ''a@x.io'', User.Secret = ''S2''\<rparr>
   \<and> (''guess'' = [] \<or> ''guess'' \<noteq> User.Secret \<lparr>User.Nick = ''alice'', User.FullName = ''Alice'',
             User.Email = ''a@x.io'', User.Secret = ''S2''\<rparr>)
   \<and> Register ''S9''
       \<lparr>Chat.Name = ''general'', Chat.Secret = ''S1'', Chat.Private = False,
        Chat.Members = Some
          [(''alice'', \<lparr>User.Nick = ''alice'', User.FullName = ''Alice'',
                        User.Email = ''a@x.io'', User.Secret = ''S2''\<rparr>)]\<rparr>
       \<lparr>User.Nick = ''alice'', User.FullName = ''Mallory'',
        User.Email = ''m@x.io'', User.Secret = []\<rparr> ''guess''
     = (Inl NickTaken,
        \<lparr>Chat.Name = ''general'', Chat.Secret = ''S1'', Chat.Private = False,
         Chat.Members = Some
           [(''alice'', \<lparr>User.Nick = ''alice'', User.FullName = ''Alice'',
                         User.Email = ''a@x.io'', User.Secret = ''S2''\<rparr>)]\<rparr>)"
  (is "?H1 \<and> ?H2 \<and> ?C")
proof -
  have h1: ?H1 by simp
  have h2: ?H2 by simp
  from Register_wrong_secret_NickTaken [OF h1 h2, of "''S9''"]
  have ?C by simp
  with h1 h2 show ?thesis by (intro conjI)
qed

subsection \<open>Listing members\<close>

lemma foldl_redact_append:
  "foldl redact_append (Some acc) al = Some (acc @ map (\<lambda>kv. (snd kv)\<lparr>User.Secret := []\<rparr>) al)"
  by (induction al arbitrary: acc) (simp_all add: redact_append_def append_slice_def)

lemma channelMembers_found:
  assumes "store (channelMembersReq.Channel req) = Some ch"
  shows "channelMembers store req
    = Inr (NewResponse (Some (map (\<lambda>kv. (snd kv)\<lparr>User.Secret := []\<rparr>) (entries (Members ch)))) StatusOK)"
  using assms
  by (cases "Members ch")
     (simp_all add: channelMembers_def store_Get_def foldl_redact_append Let_def)

lemma entries_reset_secrets:
  "entries (Members (reset_secrets f c))
     = map (\<lambda>kv. (fst kv, (snd kv)\<lparr>User.Secret := f (fst kv) (snd kv)\<rparr>)) (entries (Members c))"
  by (cases "Members c") (simp_all add: reset_secrets_def)

text \<open>
  C9. For a channel found in the store, \<^verbatim>\<open>channelMembers\<close> answers with one user per
  stored member, in the order of the membership, each with nick, full name and email
  as stored and with an empty secret; and the answer is the same whatever the stored
  member secrets are (\<open>reset_secrets f\<close> replaces them at will).
\<close>

theorem channelMembers_redacts_secrets:
  assumes "store (channelMembersReq.Channel req) = Some ch"
  shows "(\<exists>us. channelMembers store req = Inr (NewResponse (Some us) StatusOK)
            \<and> length us = length (entries (Members ch))
            \<and> list_all (\<lambda>u. User.Secret u = []) us
            \<and> map User.Nick us = map (\<lambda>kv. User.Nick (snd kv)) (entries (Members ch))
            \<and> map User.FullName us = map (\<lambda>kv. User.FullName (snd kv)) (entries (Members ch))
            \<and> map User.Email us = map (\<lambda>kv. User.Email (snd kv)) (entries (Members ch)))
    \<and> channelMembers (store(channelMembersReq.Channel req \<mapsto> reset_secrets f ch)) req
        = channelMembers store req"
proof -
  let ?us = "map (\<lambda>kv. (snd kv)\<lparr>User.Secret := []\<rparr>) (entries (Members ch))"
  have 1: "channelMembers store req = Inr (NewResponse (Some ?us) StatusOK)"
    using assms by (rule channelMembers_found)
  have 2: "channelMembers (store(channelMembersReq.Channel req \<mapsto> reset_secrets f ch)) req
     = Inr (NewResponse (Some ?us) StatusOK)"
    by (subst channelMembers_found [where ch = "reset_secrets f ch"])
       (simp_all add: entries_reset_secrets o_def)
  have 3: "list_all (\<lambda>u. User.Secret u = []) ?us" by (simp add: list_all_iff)
  show ?thesis
    unfolding 2 unfolding 1 using 3 by (simp add: o_def)
qed

theorem channelMembers_redacts_secrets_witness:
  "[''general'' \<mapsto>
        \<lparr>Chat.Name = ''general'', Chat.Secret = ''S1'', Chat.Private = False,
         Chat.Members = Some
           [(''alice'', \<lparr>User.Nick = ''alice'', User.FullName = ''Alice'',
                         User.Email = ''a@x.io'', User.Secret = ''S2''\<rparr>)]\<rparr>]
      (channelMembersReq.Channel
         \<lparr>channelMembersReq.Channel = ''general'', channelMembersReq.ChannelSecret = ''S1''\<rparr>)
     = Some \<lparr>Chat.Name = ''general'', Chat.Secret = ''S1'', Chat.Private = False,
         Chat.Members = Some
           [(''alice'', \<lparr>User.Nick = ''alice'', User.FullName = ''Alice'',
                         User.Email = ''a@x.io'', User.Secret = ''S2''\<rparr>)]\<rparr>
   \<and> channelMembers
        ([''general'' \<mapsto>
            \<lparr>Chat.Name = ''general'', Chat.Secret = ''S1'', Chat.Private = False,
             Chat.Members = Some
               [(''alice'', \<lparr>User.Nick = ''alice'', User.FullName = ''Alice'',
                             User.Email = ''a@x.io'', User.Secret = ''S2''\<rparr>)]\<rparr>]
          (channelMembersReq.Channel
             \<lparr>channelMembersReq.Channel = ''general'', channelMembersReq.ChannelSecret = ''S1''\<rparr>
           \<mapsto> reset_secrets (\<lambda>k u. ''other'')
            \<lparr>Chat.Name = ''general'', Chat.Secret = ''S1'', Chat.Private = False,
             Chat.Members = Some
               [(''alice'', \<lparr>User.Nick = ''alice'', User.FullName = ''Alice'',
                             User.Email = ''a@x.io'', User.Secret = ''S2''\<rparr>)]\<rparr>))
        \<lparr>channelMembersReq.Channel = ''general'', channelMembersReq.ChannelSecret = ''S1''\<rparr>
     = channelMembers
        [''general'' \<mapsto>
            \<lparr>Chat.Name = ''general'', Chat.Secret = ''S1'', Chat.Private = False,
             Chat.Members = Some
               [(''alice'', \<lparr>User.Nick = ''alice'', User.FullName = ''Alice'',
                             User.Email = ''a@x.io'', User.Secret = ''S2''\<rparr>)]\<rparr>]
        \<lparr>channelMembersReq.Channel = ''general'', channelMembersReq.ChannelSecret = ''S1''\<rparr>"
  (is "?H \<and> ?C")
proof -
  let ?ch = "\<lparr>Chat.Name = ''general'', Chat.Secret = ''S1'', Chat.Private = False,
         Chat.Members = Some
           [(''alice'', \<lparr>User.Nick = ''alice'', User.FullName = ''Alice'',
                         User.Email = ''a@x.io'', User.Secret = ''S2''\<rparr>)]\<rparr>"
  let ?rq = "\<lparr>channelMembersReq.Channel = ''general'', channelMembersReq.ChannelSecret = ''S1''\<rparr>"
  have h: ?H by simp
  from channelMembers_redacts_secrets
    [where store = "[''general'' \<mapsto> ?ch]" and req = ?rq and ch = ?ch
       and f = "\<lambda>k u. ''other''", OF h]
  have ?C by (rule conjunct2)
  with h show ?thesis by (intro conjI)
qed

text \<open>
  C10. For a channel found in the store, \<^verbatim>\<open>channelMembers\<close> answers with an allocated
  (non-nil) list of users; with a nil or an empty membership map that list is empty;
  and it fails exactly when the lookup of the channel fails.
\<close>

theorem channelMembers_total_on_existing:
  "(store (channelMembersReq.Channel req) = Some ch \<longrightarrow>
      (\<exists>us. channelMembers store req = Inr (NewResponse (Some us) StatusOK)))
   \<and> (store (channelMembersReq.Channel req) = Some ch
        \<and> (Members ch = None \<or> Members ch = Some []) \<longrightarrow>
      channelMembers store req = Inr (NewResponse (Some []) StatusOK))
   \<and> ((\<exists>e. channelMembers store req = Inl e)
        \<longleftrightarrow> (\<exists>e. store_Get store (channelMembersReq.Channel req) = Inl e))"
proof (intro conjI impI)
  assume "store (channelMembersReq.Channel req) = Some ch"
  then show "\<exists>us. channelMembers store req = Inr (NewResponse (Some us) StatusOK)"
    by (simp add: channelMembers_found)
next
  assume "store (channelMembersReq.Channel req) = Some ch
        \<and> (Members ch = None \<or> Members ch = Some [])"
  then show "channelMembers store req = Inr (NewResponse (Some []) StatusOK)"
    by (auto simp: channelMembers_found)
next
  show "(\<exists>e. channelMembers store req = Inl e)
        \<longleftrightarrow> (\<exists>e. store_Get store (channelMembersReq.Channel req) = Inl e)"
    by (cases "store (channelMembersReq.Channel req)")
       (simp_all add: channelMembers_found, simp_all add: channelMembers_def store_Get_def Let_def)
qed

theorem channelMembers_total_on_existing_witness:
  "[''general'' \<mapsto>
        \<lparr>Chat.Name = ''general'', Chat.Secret = ''S1'', Chat.Private = False,
         Chat.Members = None\<rparr>]
      (channelMembersReq.Channel
         \<lparr>channelMembersReq.Channel = ''general'', channelMembersReq.ChannelSecret = ''S1''\<rparr>)
     = Some \<lparr>Chat.Name = ''general'', Chat.Secret = ''S1'', Chat.Private = False,
              Chat.Members = None\<rparr>
   \<and> Members \<lparr>Chat.Name = ''general'', Chat.Secret = ''S1'', Chat.Private = False,
               Chat.Members = None\<rparr> = None
   \<and> channelMembers
        [''general'' \<mapsto>
          \<lparr>Chat.Name = ''general'', Chat.Secret = ''S1'', Chat.Private = False,
           Chat.Members = None\<rparr>]
        \<lparr>channelMembersReq.Channel = ''general'', channelMembersReq.ChannelSecret = ''S1''\<rparr>
     = Inr (NewResponse (Some []) StatusOK)"
  (is "?H1 \<and> ?H2 \<and> ?C")
proof -
  have h1: ?H1 by simp
  have h2: ?H2 by simp
  from channelMembers_total_on_existing
    [of "[''general'' \<mapsto>
          \<lparr>Chat.Name = ''general'', Chat.Secret = ''S1'', Chat.Private = False,
           Chat.Members = None\<rparr>]"
        "\<lparr>channelMembersReq.Channel = ''general'', channelMembersReq.ChannelSecret = ''S1''\<rparr>"
        "\<lparr>Chat.Name = ''general'', Chat.Secret = ''S1'', Chat.Private = False,
           Chat.Members = None\<rparr>"]
  have "?H1 \<and> (?H2 \<or> Members \<lparr>Chat.Name = ''general'', Chat.Secret = ''S1'',
           Chat.Private = False, Chat.Members = None\<rparr> = Some []) \<longrightarrow> ?C"
    by (rule conjunct1 [OF conjunct2])
  with h1 h2 show ?thesis by blast
qed

subsection \<open>The channel secret as a gate\<close>

lemma registerNick_wrong_channel_secret:
  assumes "store (registerNickReq.Channel req) = Some ch"
    and "Chat.Secret ch \<noteq> registerNickReq.ChannelSecret req"
  shows "registerNick fresh save_ok store req = (Inl (Errorf ''invalid secret''), store)"
  using assms by (simp add: registerNick_def registerNick_claim_def store_Get_def)

text \<open>
  C7. \<^verbatim>\<open>registerNick\<close> compares the presented channel secret with the stored one
  (\<open>registerNick_wrong_channel_secret\<close>); \<^verbatim>\<open>channelMembers\<close> never reads the
  \<^verbatim>\<open>ChannelSecret\<close> field of its request. Here a valid request with a wrong channel
  secret, for a private channel, is answered with the member list.
\<close>

theorem channelMembers_ignores_channel_secret:
  "channelMembersReq_Validate
      \<lparr>channelMembersReq.Channel = ''general'', channelMembersReq.ChannelSecret = ''wrong''\<rparr> = None
   \<and> Chat.Secret \<lparr>Chat.Name = ''general'', Chat.Secret = ''S1'', Chat.Private = True,
         Chat.Members = Some
           [(''alice'', \<lparr>User.Nick = ''alice'', User.FullName = ''Alice'',
                         User.Email = ''a@x.io'', User.Secret = ''S2''\<rparr>)]\<rparr> \<noteq> ''wrong''
   \<and> channelMembers
       [''general'' \<mapsto>
        \<lparr>Chat.Name = ''general'', Chat.Secret = ''S1'', Chat.Private = True,
         Chat.Members = Some
           [(''alice'', \<lparr>User.Nick = ''alice'', User.FullName = ''Alice'',
                         User.Email = ''a@x.io'', User.Secret = ''S2''\<rparr>)]\<rparr>]
       \<lparr>channelMembersReq.Channel = ''general'', channelMembersReq.ChannelSecret = ''wrong''\<rparr>
     = Inr (NewResponse
         (Some [\<lparr>User.Nick = ''alice'', User.FullName = ''Alice'',
                 User.Email = ''a@x.io'', User.Secret = []\<rparr>]) 200)"
  by (simp add: channelMembersReq_Validate_def maxChanNameLen_def maxChanSecretLen_def
        channelMembers_def store_Get_def redact_append_def append_slice_def StatusOK_def)

subsection \<open>The channel secret over time\<close>

lemma Register_keeps_channel_fields:
  "Chat.Name (snd (Register fresh c u secret)) = Chat.Name c
   \<and> Chat.Secret (snd (Register fresh c u secret)) = Chat.Secret c
   \<and> Chat.Private (snd (Register fresh c u secret)) = Chat.Private c"
  by (simp add: Register_def split: option.splits)

lemma registerNick_keeps_secret:
  assumes "named_store store" and "store name = Some c"
  shows "named_store (snd (registerNick fresh ok store req))
    \<and> (\<exists>c'. snd (registerNick fresh ok store req) name = Some c' \<and> Chat.Secret c' = Chat.Secret c)"
proof (cases "registerNick_claim fresh store req")
  case (Inl e)
  with assms show ?thesis by (simp add: registerNick_def)
next
  case (Inr claimed)
  then obtain ch where ch: "store (registerNickReq.Channel req) = Some ch"
    and cl: "Register fresh ch
           \<lparr>User.Nick = registerNickReq.Nick req,
            User.FullName = registerNickReq.FullName req,
            User.Email = registerNickReq.Email req,
            User.Secret = []\<rparr>
           (registerNickReq.Secret req) = (Inr (snd claimed), fst claimed)"
    by (rule registerNick_claim_Inr)
  from Register_keeps_channel_fields [of fresh ch _ "registerNickReq.Secret req"] cl
  have f: "Chat.Name (fst claimed) = Chat.Name ch" "Chat.Secret (fst claimed) = Chat.Secret ch"
    by (metis snd_conv)+
  from ch assms(1) have n: "Chat.Name ch = registerNickReq.Channel req"
    by (simp add: named_store_def)
  show ?thesis
  proof (cases ok)
    case False
    with Inr assms show ?thesis
      by (simp add: registerNick_def registerNick_persist_def store_Save_def)
  next
    case True
    with Inr have s: "snd (registerNick fresh ok store req)
        = store(registerNickReq.Channel req \<mapsto> fst claimed)"
      by (simp add: registerNick_def registerNick_persist_def store_Save_def f n)
    show ?thesis unfolding s using assms ch f n
      by (auto simp: named_store_def)
  qed
qed

lemma createChannel_keeps_secret:
  assumes "named_store store" and "store name = Some c"
    and "\<not> (ok \<and> createChanReq.Name req = name)"
  shows "named_store (snd (createChannel fresh ok store req))
    \<and> (\<exists>c'. snd (createChannel fresh ok store req) name = Some c' \<and> Chat.Secret c' = Chat.Secret c)"
  using assms
  by (auto simp: createChannel_def store_Save_def NewChannel_def named_store_def Let_def)

lemma serve_keeps_secret:
  assumes "named_store store" and "store name = Some c" and "\<not> recreates name call"
  shows "named_store (serve store call)
    \<and> (\<exists>c'. serve store call name = Some c' \<and> Chat.Secret c' = Chat.Secret c)"
proof (cases call)
  case (CreateChannel fresh ok req)
  with assms createChannel_keeps_secret [of store name c ok req fresh] show ?thesis by simp
next
  case (RegisterNick fresh ok req)
  with assms registerNick_keeps_secret [of store name c fresh ok req] show ?thesis by simp
next
  case (ChannelMembers req)
  with assms show ?thesis by simp
qed

lemma serve_all_keeps_secret:
  assumes "named_store store" and "store name = Some c"
    and "list_all (\<lambda>call. \<not> recreates name call) calls"
  shows "\<exists>c'. serve_all store calls name = Some c' \<and> Chat.Secret c' = Chat.Secret c"
  using assms
proof (induction calls arbitrary: store c)
  case Nil
  then show ?case by (simp add: serve_all_def)
next
  case (Cons call calls)
  from Cons.prems have nr: "\<not> recreates name call"
    and rest: "list_all (\<lambda>call. \<not> recreates name call) calls" by simp_all
  from serve_keeps_secret [OF Cons.prems(1,2) nr]
  obtain c' where n': "named_store (serve store call)"
    and c': "serve store call name = Some c'" and s': "Chat.Secret c' = Chat.Secret c"
    by blast
  from Cons.IH [OF n' c' rest] s' show ?case by (simp add: serve_all_def)
qed

text \<open>
  C6, as stated, fails: \<^verbatim>\<open>createChannel\<close> does not look whether the name is taken,
  and the store's save is an upsert. Creating \<^verbatim>\<open>general\<close> twice leaves the channel
  of that name with the second secret.
\<close>

theorem createChannel_twice_replaces_secret:
  "createChanReq_Validate \<lparr>createChanReq.Name = ''general'', createChanReq.Private = False\<rparr> = None
   \<and> map_option Chat.Secret
       (serve_all Map.empty
          [CreateChannel ''S1'' True \<lparr>createChanReq.Name = ''general'', createChanReq.Private = False\<rparr>]
          ''general'') = Some ''S1''
   \<and> map_option Chat.Secret
       (serve_all Map.empty
          [CreateChannel ''S1'' True \<lparr>createChanReq.Name = ''general'', createChanReq.Private = False\<rparr>,
           CreateChannel ''S2'' True \<lparr>createChanReq.Name = ''general'', createChanReq.Private = False\<rparr>]
          ''general'') = Some ''S2''"
  by (simp add: api_defs createChanReq_Validate_def minChanNameLen_def maxChanNameLen_def
        match_word_def word_char_def)

text \<open>
  C6, amended. \<^verbatim>\<open>createChannel\<close> stores the channel with the secret that
  \<^verbatim>\<open>NewChannel\<close> generated and answers with that secret. In a store that keeps every
  channel under its name, no sequence of API calls changes the secret of a stored
  channel, unless one of them is an accepted \<^verbatim>\<open>createChannel\<close> for that same name;
  \<^verbatim>\<open>Register\<close> never changes the channel's secret.
\<close>

theorem channel_secret_kept:
  assumes "named_store store" and "store name = Some c"
    and "list_all (\<lambda>call. \<not> recreates name call) calls"
  shows "(\<exists>c'. serve_all store calls name = Some c' \<and> Chat.Secret c' = Chat.Secret c)
    \<and> Chat.Secret (snd (Register fresh c u secret)) = Chat.Secret c
    \<and> createChannel fresh True store req
        = (Inr (NewResponse \<lparr>createChanResp.Secret = fresh\<rparr> StatusOK),
           store(createChanReq.Name req \<mapsto>
             NewChannel fresh (createChanReq.Name req) (createChanReq.Private req)))
    \<and> Chat.Secret (NewChannel fresh (createChanReq.Name req) (createChanReq.Private req)) = fresh"
  using serve_all_keeps_secret [OF assms] Register_keeps_channel_fields [of fresh c u secret]
  by (simp add: createChannel_def store_Save_def NewChannel_def Let_def)

theorem channel_secret_kept_witness:
  "named_store [''general'' \<mapsto>
        \<lparr>Chat.Name = ''general'', Chat.Secret = ''S1'', Chat.Private = False,
         Chat.Members = Some
           [(''alice'', \<lparr>User.Nick = ''alice'', User.FullName = ''Alice'',
                         User.Email = ''a@x.io'', User.Secret = ''S2''\<rparr>)]\<rparr>]
   \<and> [''general'' \<mapsto>
        \<lparr>Chat.Name = ''general'', Chat.Secret = ''S1'', Chat.Private = False,
         Chat.Members = Some
           [(''alice'', \<lparr>User.Nick = ''alice'', User.FullName = ''Alice'',
                         User.Email = ''a@x.io'', User.Secret = ''S2''\<rparr>)]\<rparr>] ''general''
      = Some \<lparr>Chat.Name = ''general'', Chat.Secret = ''S1'', Chat.Private = False,
         Chat.Members = Some
           [(''alice'', \<lparr>User.Nick = ''alice'', User.FullName = ''Alice'',
                         User.Email = ''a@x.io'', User.Secret = ''S2''\<rparr>)]\<rparr>
   \<and> list_all (\<lambda>call. \<not> recreates ''general'' call)
        [RegisterNick ''S3'' True
           \<lparr>registerNickReq.Nick = ''bob'', registerNickReq.FullName = ''Bob'',
            registerNickReq.Email = ''b@x.io'', registerNickReq.Secret = [],
            registerNickReq.Channel = ''general'', registerNickReq.ChannelSecret = ''S1''\<rparr>,
         CreateChannel ''S7'' True \<lparr>createChanReq.Name = ''random'', createChanReq.Private = True\<rparr>,
         CreateChannel ''S8'' False \<lparr>createChanReq.Name = ''general'', createChanReq.Private = True\<rparr>,
         ChannelMembers
           \<lparr>channelMembersReq.Channel = ''general'', channelMembersReq.ChannelSecret = ''S1''\<rparr>]
   \<and> (\<exists>c'. serve_all [''general'' \<mapsto>
        \<lparr>Chat.Name = ''general'', Chat.Secret = ''S1'', Chat.Private = False,
         Chat.Members = Some
           [(''alice'', \<lparr>User.Nick = ''alice'', User.FullName = ''Alice'',
                         User.Email = ''a@x.io'', User.Secret = ''S2''\<rparr>)]\<rparr>]
        [RegisterNick ''S3'' True
           \<lparr>registerNickReq.Nick = ''bob'', registerNickReq.FullName = ''Bob'',
            registerNickReq.Email = ''b@x.io'', registerNickReq.Secret = [],
            registerNickReq.Channel = ''general'', registerNickReq.ChannelSecret = ''S1''\<rparr>,
         CreateChannel ''S7'' True \<lparr>createChanReq.Name = ''random'', createChanReq.Private = True\<rparr>,
         CreateChannel ''S8'' False \<lparr>createChanReq.Name = ''general'', createChanReq.Private = True\<rparr>,
         ChannelMembers
           \<lparr>channelMembersReq.Channel = ''general'', channelMembersReq.ChannelSecret = ''S1''\<rparr>]
        ''general'' = Some c' \<and> Chat.Secret c' = ''S1'')"
  (is "?H1 \<and> ?H2 \<and> ?H3 \<and> ?C")
proof -
  have h1: ?H1 by (simp add: named_store_def)
  have h2: ?H2 by simp
  have h3: ?H3 by simp
  from channel_secret_kept [OF h1 h2 h3, THEN conjunct1] have ?C
    by (simp only: Chat.select_convs)
  with h1 h2 h3 show ?thesis by (intro conjI)
qed

subsection \<open>Two registrations at once\<close>

lemma advance_twice:
  "(case advance store (Waiting fresh req) of (r, store') \<Rightarrow> advance store' r)
     = (Answered (fst (registerNick fresh True store req)), snd (registerNick fresh True store req))"
  by (simp add: registerNick_def split: sum.splits prod.splits)

text \<open>
  C2. Two valid requests claim the unclaimed nick \<^verbatim>\<open>alice\<close> of the same channel.
  When each handler fetches the channel before the other saves (schedule 0, 1, 0, 1),
  both are answered with a secret, and the store keeps only the second member: the
  first secret opens nothing. Served one after the other (schedule 0, 0, 1, 1), the
  second is refused with \<open>NickTaken\<close>.
\<close>

theorem registerNick_concurrent_claims_both_succeed:
  "registerNickReq_Validate
       \<lparr>registerNickReq.Nick = ''alice'', registerNickReq.FullName = ''Alice A'',
        registerNickReq.Email = ''a@x.io'', registerNickReq.Secret = [],
        registerNickReq.Channel = ''general'', registerNickReq.ChannelSecret = ''S1''\<rparr> = None
   \<and> registerNickReq_Validate
       \<lparr>registerNickReq.Nick = ''alice'', registerNickReq.FullName = ''Alice B'',
        registerNickReq.Email = ''b@x.io'', registerNickReq.Secret = [],
        registerNickReq.Channel = ''general'', registerNickReq.ChannelSecret = ''S1''\<rparr> = None
   \<and> interleave [0, Suc 0, 0, Suc 0]
      ([Waiting ''SA''
          \<lparr>registerNickReq.Nick = ''alice'', registerNickReq.FullName = ''Alice A'',
           registerNickReq.Email = ''a@x.io'', registerNickReq.Secret = [],
           registerNickReq.Channel = ''general'', registerNickReq.ChannelSecret = ''S1''\<rparr>,
        Waiting ''SB''
          \<lparr>registerNickReq.Nick = ''alice'', registerNickReq.FullName = ''Alice B'',
           registerNickReq.Email = ''b@x.io'', registerNickReq.Secret = [],
           registerNickReq.Channel = ''general'', registerNickReq.ChannelSecret = ''S1''\<rparr>],
       [''general'' \<mapsto> NewChannel ''S1'' ''general'' False])
    = ([Answered (Inr (NewResponse \<lparr>registerNickResp.Secret = ''SA''\<rparr> 200)),
        Answered (Inr (NewResponse \<lparr>registerNickResp.Secret = ''SB''\<rparr> 200))],
       [''general'' \<mapsto>
          \<lparr>Chat.Name = ''general'', Chat.Secret = ''S1'', Chat.Private = False,
           Chat.Members = Some
             [(''alice'', \<lparr>User.Nick = ''alice'', User.FullName = ''Alice B'',
                           User.Email = ''b@x.io'', User.Secret = ''SB''\<rparr>)]\<rparr>])
   \<and> interleave [0, 0, Suc 0, Suc 0]
      ([Waiting ''SA''
          \<lparr>registerNickReq.Nick = ''alice'', registerNickReq.FullName = ''Alice A'',
           registerNickReq.Email = ''a@x.io'', registerNickReq.Secret = [],
           registerNickReq.Channel = ''general'', registerNickReq.ChannelSecret = ''S1''\<rparr>,
        Waiting ''SB''
          \<lparr>registerNickReq.Nick = ''alice'', registerNickReq.FullName = ''Alice B'',
           registerNickReq.Email = ''b@x.io'', registerNickReq.Secret = [],
           registerNickReq.Channel = ''general'', registerNickReq.ChannelSecret = ''S1''\<rparr>],
       [''general'' \<mapsto> NewChannel ''S1'' ''general'' False])
    = ([Answered (Inr (NewResponse \<lparr>registerNickResp.Secret = ''SA''\<rparr> 200)),
        Answered (Inl NickTaken)],
       [''general'' \<mapsto>
          \<lparr>Chat.Name = ''general'', Chat.Secret = ''S1'', Chat.Private = False,
           Chat.Members = Some
             [(''alice'', \<lparr>User.Nick = ''alice'', User.FullName = ''Alice A'',
                           User.Email = ''a@x.io'', User.Secret = ''SA''\<rparr>)]\<rparr>])"
  by (simp add: api_defs registerNickReq_Validate_def minNickLen_def maxNickLen_def defMaxLen_def
        maxChanSecretLen_def minNickSecretLen_def maxNickSecretLen_def match_word_def word_char_def)

section \<open>Properties of the ingestion handler\<close>

lemma AppendMessage_accept:
  assumes "faults s = [] \<or> \<not> hd (faults s)"
    and "\<not> list_ex (\<lambda>m. Seq m = Seq msg) (history s cid)"
  shows "AppendMessage cid msg s
    = (None, s\<lparr>faults := tl (faults s), history := (history s)(cid := history s cid @ [msg])\<rparr>)"
  using assms by (auto simp: AppendMessage_def Let_def)

lemma AppendMessage_fail:
  assumes "faults s = True # fs"
  shows "AppendMessage cid msg s = (Some StoreUnavailable, s\<lparr>faults := fs\<rparr>)"
  using assms by (simp add: AppendMessage_def Let_def)

text \<open>
  C5. Whatever store the handler is given, it hands it exactly one message per
  delivery: the placeholder (sender \<^verbatim>\<open>ingest\<close>, the fixed text, the current time)
  if decoding fails, the decoded message otherwise, in both cases with the broker's
  sequence number. When the store accepts the call and holds no entry with this
  sequence number yet, that message becomes the last entry of the channel's log, which
  grows by exactly one. Hence the deliveries valid (1), malformed (2), valid (3) into
  an empty log give three entries in that order, the second the placeholder with
  sequence number 2.
\<close>

theorem Run_handler_appends_with_seq:
  "Run_handler DecodeMsg appendMessage now cid seq data st
     = snd (appendMessage cid
         (case DecodeMsg data of
            Inl err \<Rightarrow> \<lparr>From = ''ingest'', Text = ''ingest: message unavailable: decoding error'',
                        Time = now, Seq = seq\<rparr>
          | Inr msg \<Rightarrow> msg\<lparr>Seq := seq\<rparr>) st)
   \<and> ((faults s = [] \<or> \<not> hd (faults s)) \<and> \<not> list_ex (\<lambda>m. Seq m = seq) (history s cid) \<longrightarrow>
        history (Run_handler DecodeMsg AppendMessage now cid seq data s) cid
          = history s cid @
              [case DecodeMsg data of
                 Inl err \<Rightarrow> \<lparr>From = ''ingest'', Text = ''ingest: message unavailable: decoding error'',
                             Time = now, Seq = seq\<rparr>
               | Inr msg \<Rightarrow> msg\<lparr>Seq := seq\<rparr>]
        \<and> length (history (Run_handler DecodeMsg AppendMessage now cid seq data s) cid)
            = Suc (length (history s cid))
        \<and> Seq (last (history (Run_handler DecodeMsg AppendMessage now cid seq data s) cid)) = seq)
   \<and> (DecodeMsg d1 = Inr m1 \<and> DecodeMsg d2 = Inl e \<and> DecodeMsg d3 = Inr m3 \<longrightarrow>
         history (deliver DecodeMsg cid [(t1, 1, d1), (t2, 2, d2), (t3, 3, d3)]
                    \<lparr>history = \<lambda>c. [], faults = []\<rparr>) cid
           = [m1\<lparr>Seq := 1\<rparr>,
              \<lparr>From = ''ingest'', Text = ''ingest: message unavailable: decoding error'',
               Time = t2, Seq = 2\<rparr>,
              m3\<lparr>Seq := 3\<rparr>])"
proof -
  have handed: "Run_handler DecodeMsg appendMessage now cid seq data st
     = snd (appendMessage cid
         (case DecodeMsg data of
            Inl err \<Rightarrow> \<lparr>From = ''ingest'', Text = ''ingest: message unavailable: decoding error'',
                        Time = now, Seq = seq\<rparr>
          | Inr msg \<Rightarrow> msg\<lparr>Seq := seq\<rparr>) st)"
    by (cases "DecodeMsg data") (simp_all add: Run_handler_def)
  have one: "history (Run_handler DecodeMsg AppendMessage now cid seq data s) cid
      = history s cid @
          [case DecodeMsg data of
              Inl err \<Rightarrow> \<lparr>From = ''ingest'', Text = ''ingest: message unavailable: decoding error'',
                          Time = now, Seq = seq\<rparr>
            | Inr msg \<Rightarrow> msg\<lparr>Seq := seq\<rparr>]"
    if "faults s = [] \<or> \<not> hd (faults s)" "\<not> list_ex (\<lambda>m. Seq m = seq) (history s cid)"
    using that
    by (cases "DecodeMsg data") (simp_all add: Run_handler_def AppendMessage_accept)
  have seq_last: "Seq (case DecodeMsg data of
              Inl err \<Rightarrow> \<lparr>From = ''ingest'', Text = ''ingest: message unavailable: decoding error'',
                          Time = now, Seq = seq\<rparr>
            | Inr msg \<Rightarrow> msg\<lparr>Seq := seq\<rparr>) = seq"
    by (cases "DecodeMsg data") simp_all
  have scenario: "history (deliver DecodeMsg cid [(t1, 1, d1), (t2, 2, d2), (t3, 3, d3)]
                    \<lparr>history = \<lambda>c. [], faults = []\<rparr>) cid
           = [m1\<lparr>Seq := 1\<rparr>,
              \<lparr>From = ''ingest'', Text = ''ingest: message unavailable: decoding error'',
               Time = t2, Seq = 2\<rparr>,
              m3\<lparr>Seq := 3\<rparr>]"
    if "DecodeMsg d1 = Inr m1" "DecodeMsg d2 = Inl e" "DecodeMsg d3 = Inr m3"
    using that by (simp add: Run_handler_def AppendMessage_def Let_def)
  show ?thesis
  proof (intro conjI impI)
    show "Run_handler DecodeMsg appendMessage now cid seq data st
     = snd (appendMessage cid
         (case DecodeMsg data of
            Inl err \<Rightarrow> \<lparr>From = ''ingest'', Text = ''ingest: message unavailable: decoding error'',
                        Time = now, Seq = seq\<rparr>
          | Inr msg \<Rightarrow> msg\<lparr>Seq := seq\<rparr>) st)"
      by (rule handed)
  next
    assume h: "(faults s = [] \<or> \<not> hd (faults s)) \<and> \<not> list_ex (\<lambda>m. Seq m = seq) (history s cid)"
    then show "history (Run_handler DecodeMsg AppendMessage now cid seq data s) cid
          = history s cid @
              [case DecodeMsg data of
                 Inl err \<Rightarrow> \<lparr>From = ''ingest'', Text = ''ingest: message unavailable: decoding error'',
                             Time = now, Seq = seq\<rparr>
               | Inr msg \<Rightarrow> msg\<lparr>Seq := seq\<rparr>]"
      by (simp add: one)
    from h show "length (history (Run_handler DecodeMsg AppendMessage now cid seq data s) cid)
            = Suc (length (history s cid))"
      by (simp add: one)
    from h show "Seq (last (history (Run_handler DecodeMsg AppendMessage now cid seq data s) cid)) = seq"
      by (simp add: one seq_last)
  next
    assume "DecodeMsg d1 = Inr m1 \<and> DecodeMsg d2 = Inl e \<and> DecodeMsg d3 = Inr m3"
    then show "history (deliver DecodeMsg cid [(t1, 1, d1), (t2, 2, d2), (t3, 3, d3)]
                    \<lparr>history = \<lambda>c. [], faults = []\<rparr>) cid
           = [m1\<lparr>Seq := 1\<rparr>,
              \<lparr>From = ''ingest'', Text = ''ingest: message unavailable: decoding error'',
               Time = t2, Seq = 2\<rparr>,
              m3\<lparr>Seq := 3\<rparr>]"
      by (intro scenario) simp_all
  qed
qed

theorem Run_handler_appends_with_seq_witness:
  "(faults \<lparr>history = \<lambda>c. [], faults = [False]\<rparr> = []
      \<or> \<not> hd (faults \<lparr>history = \<lambda>c. [], faults = [False]\<rparr>))
   \<and> \<not> list_ex (\<lambda>m. Seq m = 7) (history \<lparr>history = \<lambda>c. [], faults = [False]\<rparr> ''general'')
   \<and> history
        (Run_handler
           (\<lambda>d. if d = [] then Inl DecodeError
                else Inr \<lparr>From = ''bob'', Text = ''hi'', Time = 5, Seq = 0\<rparr>)
           AppendMessage 42 ''general'' 7 [] \<lparr>history = \<lambda>c. [], faults = [False]\<rparr>)
        ''general''
      = [\<lparr>From = ''ingest'', Text = ''ingest: message unavailable: decoding error'',
          Time = 42, Seq = 7\<rparr>]"
  (is "?H1 \<and> ?H2 \<and> ?C")
proof -
  have h1: ?H1 by simp
  have h2: ?H2 by simp
  from Run_handler_appends_with_seq
    [where DecodeMsg = "\<lambda>d. if d = [] then Inl DecodeError
               else Inr \<lparr>From = ''bob'', Text = ''hi'', Time = 5, Seq = 0\<rparr>"
       and data = "[]" and now = 42 and seq = 7 and cid = "''general''"
       and s = "\<lparr>history = \<lambda>c. [], faults = [False]\<rparr>", THEN conjunct2, THEN conjunct1]
    h1 h2
  have ?C by simp
  with h1 h2 show ?thesis by (intro conjI)
qed

text \<open>
  C8. When the store's next call fails, \<^verbatim>\<open>AppendMessage\<close> returns the error, and the
  handler still returns: the store it leaves has seen exactly one call (one entry of
  the fault schedule is used up, whatever comes next in it), no log has changed, and
  the subscription goes on with the following deliveries. The handler has no result
  through which the failure could reach the broker.
\<close>

theorem Run_handler_drops_append_failure:
  assumes "faults s = True # fs"
  shows "fst (AppendMessage cid msg s) = Some StoreUnavailable
    \<and> Run_handler DecodeMsg AppendMessage now cid seq data s = s\<lparr>faults := fs\<rparr>
    \<and> history (Run_handler DecodeMsg AppendMessage now cid seq data s) = history s
    \<and> deliver DecodeMsg cid ((now, seq, data) # ds) s = deliver DecodeMsg cid ds (s\<lparr>faults := fs\<rparr>)"
  using assms by (simp add: Run_handler_def AppendMessage_fail)

theorem Run_handler_drops_append_failure_witness:
  "faults \<lparr>history = \<lambda>c. [], faults = [True, False]\<rparr> = True # [False]
   \<and> Run_handler (\<lambda>d. Inr \<lparr>From = ''bob'', Text = ''hi'', Time = 5, Seq = 0\<rparr>)
        AppendMessage 42 ''general'' 7 [1, 2] \<lparr>history = \<lambda>c. [], faults = [True, False]\<rparr>
      = \<lparr>history = \<lambda>c. [], faults = [False]\<rparr>"
  (is "?H \<and> ?C")
proof -
  have h: ?H by simp
  from Run_handler_drops_append_failure [OF h,
      where DecodeMsg = "\<lambda>d. Inr \<lparr>From = ''bob'', Text = ''hi'', Time = 5, Seq = 0\<rparr>"
        and now = 42 and cid = "''general''" and seq = 7 and data = "[1, 2]"]
  have ?C by simp
  with h show ?thesis by (intro conjI)
qed

end
